theory Spec2Isabelle
  imports Complex_Main "HOL-Library.AList"
begin

section \<open>The layout editor of the repository (component LayoutEditor)\<close>

text \<open>
  The component keeps its state in React state cells and changes it only inside event
  handlers. Every handler reads the cells as they were at the last render and queues new
  values, and the component renders again before the next event is handled. The model runs
  one handler at a time on a record of all the cells and returns the record after the
  queued writes, so a handler is a function from state to state.

  JavaScript numbers that hold coordinates are modelled as \<open>real\<close>: the handlers only
  subtract, compare and copy them. Comparing and copying are exact; the subtraction rounds
  and is a parameter of the model (see the dragging handlers). The history cursor only
  ever holds array indices and is a \<open>nat\<close>. The crop insets come from range inputs (min 0,
  max 50, whole steps) and are modelled as \<open>int\<close>.

  Left out are the cells and handlers that never touch the ones below: the list of imported
  assets, the reference to the file input, and the export of the canvas. A file import ends
  in a call of \<open>addToCanvas\<close> with an image asset.
\<close>

subsection \<open>Data model (interface LayoutItem and the state cells)\<close>

datatype item_type = Image | Text | Shape

datatype shape_type = Rectangle | Circle | Line

datatype asset_type = AssetImage | AssetVideo | AssetText

datatype style_value = StrV string | NumV real

text \<open>
  The fields \<open>id\<close>, \<open>type\<close>, \<open>x\<close> and \<open>y\<close> of the source are \<open>item_id\<close>, \<open>item_type\<close>,
  \<open>item_x\<close> and \<open>item_y\<close> here; the optional fields are options. The style overlay is an
  association list in insertion order, as the keys of a JavaScript object are.
\<close>

record LayoutItem =
  item_id :: string
  item_type :: item_type
  content :: string
  item_x :: real
  item_y :: real
  width :: real
  height :: real
  zIndex :: real
  rotation :: real
  borderRadius :: "real option"
  style :: "(string \<times> style_value) list"
  shapeType :: "shape_type option"
  color :: "string option"

datatype axis = AxisX | AxisY

type_synonym guide = "axis \<times> real"

datatype crop_tool = Rect | Lasso

record crop_rect =
  crop_t :: int
  crop_r :: int
  crop_b :: int
  crop_l :: int

record editor_state =
  items :: "LayoutItem list"
  selectedItemId :: "string option"
  history :: "LayoutItem list list"
  historyIndex :: nat
  isDragging :: bool
  dragOffset :: "real \<times> real"
  snappingEnabled :: bool
  snapGuides :: "guide list"
  cropModeItem :: "string option"
  cropToolType :: crop_tool
  cropRect :: crop_rect
  lassoPoints :: "(real \<times> real) list"
  canvasRef :: bool

text \<open>
  The field \<open>canvasRef\<close> says whether \<open>canvasRef.current\<close> is set, which it is from the
  first render on. The other cells start from their \<open>useState\<close> values.
\<close>

definition zero_rect :: crop_rect where
  "zero_rect = \<lparr>crop_t = 0, crop_r = 0, crop_b = 0, crop_l = 0\<rparr>"

definition initial_state :: editor_state where
  "initial_state =
     \<lparr>items = [], selectedItemId = None, history = [[]], historyIndex = 0,
      isDragging = False, dragOffset = (0, 0), snappingEnabled = True, snapGuides = [],
      cropModeItem = None, cropToolType = Rect, cropRect = zero_rect, lassoPoints = [],
      canvasRef = True\<rparr>"

text \<open>
  \<open>if (selectedItemId)\<close> and \<open>if (cropModeItem)\<close> test a \<open>string | null\<close> for truthiness:
  \<open>null\<close> and the empty string are both falsy.
\<close>

definition truthy :: "string option \<Rightarrow> bool" where
  "truthy v = (case v of None \<Rightarrow> False | Some s \<Rightarrow> s \<noteq> [])"

text \<open>\<open>items.find(i => i.id === id)\<close> with \<open>id\<close> a \<open>string | null\<close>.\<close>

definition find_item :: "LayoutItem list \<Rightarrow> string option \<Rightarrow> LayoutItem option" where
  "find_item its v = find (\<lambda>i. Some (item_id i) = v) its"

subsection \<open>History management\<close>

definition recordHistory :: "LayoutItem list \<Rightarrow> editor_state \<Rightarrow> editor_state" where
  "recordHistory newItems s =
     (let newHistory = take (historyIndex s + 1) (history s) @ [newItems]
      in s\<lparr>history := newHistory, historyIndex := length newHistory - 1\<rparr>)"

text \<open>
  \<open>history[historyIndex - 1]\<close> past the end of the array is \<open>undefined\<close> in JavaScript and the
  next render fails on it; the model returns \<open>None\<close> there.
\<close>

definition handleUndo :: "editor_state \<Rightarrow> editor_state option" where
  "handleUndo s =
     (if historyIndex s > 0 then
        (if historyIndex s - 1 < length (history s) then
           Some (s\<lparr>historyIndex := historyIndex s - 1,
                   items := history s ! (historyIndex s - 1),
                   cropModeItem := None\<rparr>)
         else None)
      else Some s)"

text \<open>Here the guard \<open>historyIndex < history.length - 1\<close> keeps the read in range.\<close>

definition handleRedo :: "editor_state \<Rightarrow> editor_state" where
  "handleRedo s =
     (if int (historyIndex s) < int (length (history s)) - 1 then
        s\<lparr>historyIndex := historyIndex s + 1,
          items := history s ! (historyIndex s + 1),
          cropModeItem := None\<rparr>
      else s)"

definition updateItems :: "LayoutItem list \<Rightarrow> bool \<Rightarrow> editor_state \<Rightarrow> editor_state" where
  "updateItems newItems record s =
     (let s1 = s\<lparr>items := newItems\<rparr>
      in if record then recordHistory newItems s1 else s1)"

subsection \<open>Item management\<close>

text \<open>
  New ids come from \<open>Math.random()\<close>; the model takes the drawn id as an argument of the
  handler. Nothing in the source makes two draws differ.
\<close>

definition addToCanvas :: "string \<Rightarrow> asset_type \<Rightarrow> string \<Rightarrow> editor_state \<Rightarrow> editor_state" where
  "addToCanvas newId atype acontent s =
     (let newItem =
            \<lparr>item_id = newId,
             item_type = (if atype = AssetText then Text else Image),
             content = acontent,
             item_x = 50, item_y = 50,
             width = (if atype = AssetImage then 300 else 200),
             height = (if atype = AssetImage then 300 else 100),
             zIndex = real (length (items s)) + 1,
             rotation = 0, borderRadius = Some 0, style = [],
             shapeType = None, color = None\<rparr>;
          newItems = items s @ [newItem]
      in (updateItems newItems True s)\<lparr>selectedItemId := Some newId\<rparr>)"

definition addText :: "string \<Rightarrow> editor_state \<Rightarrow> editor_state" where
  "addText newId s =
     (let newItem =
            \<lparr>item_id = newId, item_type = Text, content = ''Double click to edit'',
             item_x = 100, item_y = 100, width = 200, height = 60,
             zIndex = real (length (items s)) + 1,
             rotation = 0, borderRadius = Some 0, style = [],
             shapeType = None, color = None\<rparr>;
          newItems = items s @ [newItem]
      in (updateItems newItems True s)\<lparr>selectedItemId := Some newId\<rparr>)"

definition addShape :: "string \<Rightarrow> shape_type \<Rightarrow> editor_state \<Rightarrow> editor_state" where
  "addShape newId st s =
     (let newItem =
            \<lparr>item_id = newId, item_type = Shape, content = [],
             item_x = 150, item_y = 150,
             width = (if st = Line then 200 else 100),
             height = (if st = Line then 4 else 100),
             zIndex = real (length (items s)) + 1,
             rotation = 0,
             borderRadius = Some (if st = Circle then 50 else 0),
             style = [],
             shapeType = Some st, color = Some ''#4f46e5''\<rparr>;
          newItems = items s @ [newItem]
      in (updateItems newItems True s)\<lparr>selectedItemId := Some newId\<rparr>)"

definition handleDelete :: "editor_state \<Rightarrow> editor_state" where
  "handleDelete s =
     (if truthy (selectedItemId s) then
        (let newItems = filter (\<lambda>i. Some (item_id i) \<noteq> selectedItemId s) (items s)
         in (updateItems newItems True s)\<lparr>selectedItemId := None\<rparr>)
      else s)"

text \<open>The property panel calls the handler with these keys only.\<close>

datatype prop_change =
    SetX real | SetY real | SetWidth real | SetHeight real | SetRotation real
  | SetZIndex real | SetBorderRadius real | SetColor string | SetContent string

fun apply_prop :: "prop_change \<Rightarrow> LayoutItem \<Rightarrow> LayoutItem" where
  "apply_prop (SetX v) item = item\<lparr>item_x := v\<rparr>"
| "apply_prop (SetY v) item = item\<lparr>item_y := v\<rparr>"
| "apply_prop (SetWidth v) item = item\<lparr>width := v\<rparr>"
| "apply_prop (SetHeight v) item = item\<lparr>height := v\<rparr>"
| "apply_prop (SetRotation v) item = item\<lparr>rotation := v\<rparr>"
| "apply_prop (SetZIndex v) item = item\<lparr>zIndex := v\<rparr>"
| "apply_prop (SetBorderRadius v) item = item\<lparr>borderRadius := Some v\<rparr>"
| "apply_prop (SetColor c) item = item\<lparr>color := Some c\<rparr>"
| "apply_prop (SetContent c) item = item\<lparr>content := c\<rparr>"

definition handlePropertyChange :: "prop_change \<Rightarrow> editor_state \<Rightarrow> editor_state" where
  "handlePropertyChange p s =
     (if truthy (selectedItemId s) then
        (let newItems =
               map (\<lambda>item. if Some (item_id item) = selectedItemId s then apply_prop p item
                           else item) (items s)
         in updateItems newItems True s)
      else s)"

subsection \<open>Snapping and dragging\<close>

definition SNAP_THRESHOLD :: real where
  "SNAP_THRESHOLD = 10"

text \<open>
  The coordinates are IEEE 754 doubles, and \<open>a - b\<close> in the source is their rounded
  difference, not the exact one. The handlers below take that subtraction as the parameter
  \<open>fsub\<close>; \<open>Math.abs\<close>, the comparisons and the copying of a value are exact. The
  examples use \<open>exact_sub\<close>, the difference without rounding: all their coordinates are
  whole numbers of moderate size, whose rounded difference is the exact one.
\<close>

definition exact_sub :: "real \<Rightarrow> real \<Rightarrow> real" where
  "exact_sub a b = a - b"

definition handleMouseDown :: "(real \<Rightarrow> real \<Rightarrow> real) \<Rightarrow> real \<Rightarrow> real \<Rightarrow> string
    \<Rightarrow> editor_state \<Rightarrow> editor_state" where
  "handleMouseDown fsub clientX clientY ident s =
     (if truthy (cropModeItem s) then s
      else (case find (\<lambda>i. item_id i = ident) (items s) of
              Some item \<Rightarrow>
                s\<lparr>selectedItemId := Some ident, isDragging := True,
                  dragOffset := (fsub clientX (item_x item), fsub clientY (item_y item))\<rparr>
            | None \<Rightarrow> s))"

text \<open>
  The body of \<open>items.forEach(other => ...)\<close>: the running \<open>newX\<close>, \<open>newY\<close> and \<open>guides\<close> are
  the accumulator, tested and overwritten item by item.
\<close>

definition snap_other :: "(real \<Rightarrow> real \<Rightarrow> real) \<Rightarrow> string option \<Rightarrow> LayoutItem
    \<Rightarrow> real \<times> real \<times> guide list \<Rightarrow> real \<times> real \<times> guide list" where
  "snap_other fsub sel other acc =
     (case acc of (newX, newY, guides) \<Rightarrow>
        if Some (item_id other) = sel then (newX, newY, guides)
        else
          (let (newX1, guides1) =
                 (if \<bar>fsub newX (item_x other)\<bar> < SNAP_THRESHOLD
                  then (item_x other, guides @ [(AxisX, item_x other)])
                  else (newX, guides));
               (newY1, guides2) =
                 (if \<bar>fsub newY (item_y other)\<bar> < SNAP_THRESHOLD
                  then (item_y other, guides1 @ [(AxisY, item_y other)])
                  else (newY, guides1))
           in (newX1, newY1, guides2)))"

primrec snap_others :: "(real \<Rightarrow> real \<Rightarrow> real) \<Rightarrow> string option \<Rightarrow> LayoutItem list
    \<Rightarrow> real \<times> real \<times> guide list \<Rightarrow> real \<times> real \<times> guide list" where
  "snap_others fsub sel [] acc = acc"
| "snap_others fsub sel (other # rest) acc =
     snap_others fsub sel rest (snap_other fsub sel other acc)"

text \<open>The block guarded by \<open>snappingEnabled && canvasRef.current\<close>.\<close>

definition snap :: "(real \<Rightarrow> real \<Rightarrow> real) \<Rightarrow> editor_state \<Rightarrow> real \<times> real
    \<Rightarrow> real \<times> real \<times> guide list" where
  "snap fsub s cand =
     (case cand of (newX, newY) \<Rightarrow>
        (let (newX1, guides1) =
               (if \<bar>newX\<bar> < SNAP_THRESHOLD then (0, [(AxisX, 0)]) else (newX, []));
             (newY1, guides2) =
               (if \<bar>newY\<bar> < SNAP_THRESHOLD then (0, guides1 @ [(AxisY, 0)])
                else (newY, guides1))
         in (case find_item (items s) (selectedItemId s) of
               Some currentItem \<Rightarrow>
                 snap_others fsub (selectedItemId s) (items s) (newX1, newY1, guides2)
             | None \<Rightarrow> (newX1, newY1, guides2))))"

definition handleMouseMove :: "(real \<Rightarrow> real \<Rightarrow> real) \<Rightarrow> real \<Rightarrow> real
    \<Rightarrow> editor_state \<Rightarrow> editor_state" where
  "handleMouseMove fsub clientX clientY s =
     (if isDragging s \<and> truthy (selectedItemId s) \<and> \<not> truthy (cropModeItem s) then
        (let cand = (fsub clientX (fst (dragOffset s)), fsub clientY (snd (dragOffset s)));
             (newX, newY, guides) =
               (if snappingEnabled s \<and> canvasRef s then snap fsub s cand
                else (fst cand, snd cand, []))
         in s\<lparr>snapGuides := guides,
              items := map (\<lambda>item. if Some (item_id item) = selectedItemId s
                                    then item\<lparr>item_x := newX, item_y := newY\<rparr>
                                    else item) (items s)\<rparr>)
      else s)"

definition handleMouseUp :: "editor_state \<Rightarrow> editor_state" where
  "handleMouseUp s =
     (if isDragging s then
        recordHistory (items s) (s\<lparr>isDragging := False, snapGuides := []\<rparr>)
      else s)"

definition toggleSnapping :: "editor_state \<Rightarrow> editor_state" where
  "toggleSnapping s = s\<lparr>snappingEnabled := \<not> snappingEnabled s\<rparr>"

subsection \<open>Crop logic\<close>

definition startCrop :: "editor_state \<Rightarrow> editor_state" where
  "startCrop s =
     (if truthy (selectedItemId s) then
        s\<lparr>cropModeItem := selectedItemId s, cropToolType := Rect,
          cropRect := zero_rect, lassoPoints := []\<rparr>
      else s)"

text \<open>
  A template literal prints a number by \<open>Number::toString\<close>. For the whole numbers the
  insets hold, that is the decimal numeral, with a minus sign below zero.
\<close>

definition digit_char :: "nat \<Rightarrow> char" where
  "digit_char d = char_of (48 + d)"

fun nat_digits :: "nat \<Rightarrow> string" where
  "nat_digits n =
     (if n < 10 then [digit_char n] else nat_digits (n div 10) @ [digit_char (n mod 10)])"

declare nat_digits.simps [simp del]

definition int_to_string :: "int \<Rightarrow> string" where
  "int_to_string i = (if i < 0 then CHR ''-'' # nat_digits (nat (- i)) else nat_digits (nat i))"

definition inset_string :: "crop_rect \<Rightarrow> string" where
  "inset_string cr =
     ''inset('' @ int_to_string (crop_t cr) @ ''% '' @ int_to_string (crop_r cr) @ ''% ''
       @ int_to_string (crop_b cr) @ ''% '' @ int_to_string (crop_l cr) @ ''%)''"

text \<open>\<open>Array.prototype.join\<close>.\<close>

fun join :: "string \<Rightarrow> string list \<Rightarrow> string" where
  "join sep [] = []"
| "join sep [a] = a"
| "join sep (a # b # rest) = a @ sep @ join sep (b # rest)"

text \<open>
  The lasso points are fractions; how \<open>Number::toString\<close> prints them is the language's
  business and is taken as the parameter \<open>numToString\<close>.
\<close>

definition polygon_string :: "(real \<Rightarrow> string) \<Rightarrow> (real \<times> real) list \<Rightarrow> string" where
  "polygon_string numToString pts =
     ''polygon('' @ join '', '' (map (\<lambda>p. numToString (fst p) @ ''% '' @ numToString (snd p) @ ''%'') pts)
       @ '')''"

definition applyCrop :: "(real \<Rightarrow> string) \<Rightarrow> editor_state \<Rightarrow> editor_state" where
  "applyCrop numToString s =
     (if truthy (cropModeItem s) then
        (let clipPath =
               (if cropToolType s = Rect then inset_string (cropRect s)
                else if cropToolType s = Lasso \<and> length (lassoPoints s) > 2
                then polygon_string numToString (lassoPoints s)
                else []);
             s1 =
               (if clipPath \<noteq> [] then
                  updateItems
                    (map (\<lambda>item. if Some (item_id item) = cropModeItem s
                                  then item\<lparr>style := AList.update ''clipPath'' (StrV clipPath) (style item)\<rparr>
                                  else item) (items s))
                    True s
                else s)
         in s1\<lparr>cropModeItem := None\<rparr>)
      else s)"

text \<open>
  The clicked point arrives as the percentages the handler computes from the event and the
  element's bounding box.
\<close>

definition handleCropClick :: "real \<times> real \<Rightarrow> editor_state \<Rightarrow> editor_state" where
  "handleCropClick pt s =
     (if truthy (cropModeItem s) \<and> cropToolType s = Lasso
      then s\<lparr>lassoPoints := lassoPoints s @ [pt]\<rparr> else s)"

text \<open>The canvas click handler, for a click on the background itself.\<close>

definition handleCanvasClick :: "editor_state \<Rightarrow> editor_state" where
  "handleCanvasClick s = s\<lparr>selectedItemId := None, cropModeItem := None\<rparr>"

text \<open>The state setters the crop toolbar and the crop sliders call directly.\<close>

definition setCropToolType :: "crop_tool \<Rightarrow> editor_state \<Rightarrow> editor_state" where
  "setCropToolType tool s = s\<lparr>cropToolType := tool\<rparr>"

definition cancelCrop :: "editor_state \<Rightarrow> editor_state" where
  "cancelCrop s = s\<lparr>cropModeItem := None\<rparr>"

datatype crop_side = SideT | SideR | SideB | SideL

fun setCropRect :: "crop_side \<Rightarrow> int \<Rightarrow> editor_state \<Rightarrow> editor_state" where
  "setCropRect SideT v s = s\<lparr>cropRect := (cropRect s)\<lparr>crop_t := v\<rparr>\<rparr>"
| "setCropRect SideR v s = s\<lparr>cropRect := (cropRect s)\<lparr>crop_r := v\<rparr>\<rparr>"
| "setCropRect SideB v s = s\<lparr>cropRect := (cropRect s)\<lparr>crop_b := v\<rparr>\<rparr>"
| "setCropRect SideL v s = s\<lparr>cropRect := (cropRect s)\<lparr>crop_l := v\<rparr>\<rparr>"

subsection \<open>Reading an inset descriptor\<close>

text \<open>
  The inset values a descriptor carries are read off its text: \<open>inset(\<close>, four decimal
  numerals each followed by \<open>%\<close>, single spaces between them, and the closing bracket.
  Nothing in the source reads a descriptor; the reader is what states that a stored
  descriptor holds given values in a given order.
\<close>

definition is_digit :: "char \<Rightarrow> bool" where
  "is_digit c = (48 \<le> (of_char c :: nat) \<and> (of_char c :: nat) \<le> 57)"

definition digit_val :: "char \<Rightarrow> nat" where
  "digit_val c = of_char c - 48"

fun strip_prefix :: "string \<Rightarrow> string \<Rightarrow> string option" where
  "strip_prefix [] s = Some s"
| "strip_prefix (p # ps) [] = None"
| "strip_prefix (p # ps) (c # cs) = (if p = c then strip_prefix ps cs else None)"

definition read_number :: "string \<Rightarrow> (int \<times> string) option" where
  "read_number s =
     (let ds = takeWhile is_digit s
      in if ds = [] then None
         else Some (int (foldl (\<lambda>a c. 10 * a + digit_val c) 0 ds), dropWhile is_digit s))"

definition inset_values :: "string \<Rightarrow> (int \<times> int \<times> int \<times> int) option" where
  "inset_values d =
     Option.bind (strip_prefix ''inset('' d) (\<lambda>d1.
     Option.bind (read_number d1) (\<lambda>(t, d2).
     Option.bind (strip_prefix ''% '' d2) (\<lambda>d3.
     Option.bind (read_number d3) (\<lambda>(r, d4).
     Option.bind (strip_prefix ''% '' d4) (\<lambda>d5.
     Option.bind (read_number d5) (\<lambda>(b, d6).
     Option.bind (strip_prefix ''% '' d6) (\<lambda>d7.
     Option.bind (read_number d7) (\<lambda>(l, d8).
       if d8 = ''%)'' then Some (t, r, b, l) else None))))))))"

subsection \<open>What is rendered, and the events of a session\<close>

text \<open>
  A control can be used only while it is rendered. These are the conditions of the JSX:
  the Crop button, the crop toolbar inside the image being cropped, the property panel and
  its crop sliders.
\<close>

definition selectedItem :: "editor_state \<Rightarrow> LayoutItem option" where
  "selectedItem s = find_item (items s) (selectedItemId s)"

definition crop_button_shown :: "editor_state \<Rightarrow> bool" where
  "crop_button_shown s =
     (truthy (selectedItemId s) \<and> \<not> truthy (cropModeItem s) \<and>
      (case selectedItem s of Some i \<Rightarrow> item_type i = Image | None \<Rightarrow> False))"

definition crop_toolbar_shown :: "editor_state \<Rightarrow> bool" where
  "crop_toolbar_shown s =
     list_ex (\<lambda>item. cropModeItem s = Some (item_id item) \<and> item_type item = Image) (items s)"

definition prop_input_shown :: "editor_state \<Rightarrow> prop_change \<Rightarrow> bool" where
  "prop_input_shown s p =
     (case selectedItem s of
        None \<Rightarrow> False
      | Some i \<Rightarrow>
          (case p of
             SetColor c \<Rightarrow> item_type i = Shape
           | SetContent c \<Rightarrow> item_type i = Text
           | SetBorderRadius v \<Rightarrow> 0 \<le> v \<and> v \<le> 100
           | _ \<Rightarrow> True))"

definition crop_sliders_shown :: "editor_state \<Rightarrow> bool" where
  "crop_sliders_shown s =
     (case selectedItem s of
        None \<Rightarrow> False
      | Some i \<Rightarrow> cropModeItem s = Some (item_id i) \<and> cropToolType s = Rect)"

datatype event =
    AddToCanvas string asset_type string
  | AddText string
  | AddShape string shape_type
  | Delete
  | PropertyChange prop_change
  | MouseDown real real string
  | MouseMove real real
  | MouseUp
  | Undo
  | Redo
  | ToggleSnapping
  | StartCrop
  | SetCropToolType crop_tool "real \<times> real"
  | SetCropRect crop_side int
  | CropClick "real \<times> real"
  | ApplyCrop "real \<times> real"
  | CancelCrop "real \<times> real"
  | CanvasClick

text \<open>
  The crop toolbar (tool buttons, Apply, Cancel) is rendered inside the element of the
  cropped image whose \<open>onClick\<close> is \<open>handleCropClick\<close>, and the toolbar stops only
  \<open>mousedown\<close> from propagating. A click on one of its buttons therefore runs the button's
  handler and then, bubbling, \<open>handleCropClick\<close> with the position of the click. Both are
  closures of the same render: each reads the cells of the state \<open>s\<close> before the click, and
  their writes are queued together. The only cell \<open>handleCropClick\<close> writes is the list of
  lasso points, which no button handler writes; \<open>s1\<close> is the state after the button's own
  writes.
\<close>

definition bubble_to_crop_click :: "real \<times> real \<Rightarrow> editor_state \<Rightarrow> editor_state \<Rightarrow> editor_state" where
  "bubble_to_crop_click pt s s1 = s1\<lparr>lassoPoints := lassoPoints (handleCropClick pt s)\<rparr>"

text \<open>
  One event: the handler runs if its control is rendered, and nothing happens otherwise.
  The events of the crop toolbar carry the position of the click as the point
  \<open>handleCropClick\<close> computes from it. The result is \<open>None\<close> only where the undo handler
  reads past the history.
\<close>

fun step :: "(real \<Rightarrow> string) \<Rightarrow> (real \<Rightarrow> real \<Rightarrow> real) \<Rightarrow> editor_state \<Rightarrow> event
    \<Rightarrow> editor_state option" where
  "step f fsub s (AddToCanvas newId atype acontent) = Some (addToCanvas newId atype acontent s)"
| "step f fsub s (AddText newId) = Some (addText newId s)"
| "step f fsub s (AddShape newId st) = Some (addShape newId st s)"
| "step f fsub s Delete = Some (handleDelete s)"
| "step f fsub s (PropertyChange p) =
     Some (if prop_input_shown s p then handlePropertyChange p s else s)"
| "step f fsub s (MouseDown clientX clientY ident) =
     Some (handleMouseDown fsub clientX clientY ident s)"
| "step f fsub s (MouseMove clientX clientY) = Some (handleMouseMove fsub clientX clientY s)"
| "step f fsub s MouseUp = Some (handleMouseUp s)"
| "step f fsub s Undo = handleUndo s"
| "step f fsub s Redo = Some (handleRedo s)"
| "step f fsub s ToggleSnapping = Some (toggleSnapping s)"
| "step f fsub s StartCrop = Some (if crop_button_shown s then startCrop s else s)"
| "step f fsub s (SetCropToolType tool pt) =
     Some (if crop_toolbar_shown s
           then bubble_to_crop_click pt s (setCropToolType tool s) else s)"
| "step f fsub s (SetCropRect side v) =
     Some (if crop_sliders_shown s \<and> 0 \<le> v \<and> v \<le> 50 then setCropRect side v s else s)"
| "step f fsub s (CropClick pt) =
     Some (if crop_toolbar_shown s then handleCropClick pt s else s)"
| "step f fsub s (ApplyCrop pt) =
     Some (if crop_toolbar_shown s then bubble_to_crop_click pt s (applyCrop f s) else s)"
| "step f fsub s (CancelCrop pt) =
     Some (if crop_toolbar_shown s then bubble_to_crop_click pt s (cancelCrop s) else s)"
| "step f fsub s CanvasClick = Some (handleCanvasClick s)"

fun run :: "(real \<Rightarrow> string) \<Rightarrow> (real \<Rightarrow> real \<Rightarrow> real) \<Rightarrow> editor_state \<Rightarrow> event list
    \<Rightarrow> editor_state option" where
  "run f fsub s [] = Some s"
| "run f fsub s (e # es) =
     (case step f fsub s e of None \<Rightarrow> None | Some s1 \<Rightarrow> run f fsub s1 es)"

text \<open>The states a session can be in: those some run of events reaches from the first render.\<close>

inductive reachable :: "(real \<Rightarrow> string) \<Rightarrow> (real \<Rightarrow> real \<Rightarrow> real) \<Rightarrow> editor_state \<Rightarrow> bool"
  for f fsub where
  reachable_init: "reachable f fsub initial_state"
| reachable_step: "reachable f fsub s \<Longrightarrow> step f fsub s e = Some s1 \<Longrightarrow> reachable f fsub s1"

subsection \<open>The session invariant and example data\<close>

text \<open>
  The cursor points into the history, and outside a drag the live items are the entry at
  the cursor.
\<close>

definition no_drag_synced :: "editor_state \<Rightarrow> bool" where
  "no_drag_synced s =
     (historyIndex s < length (history s) \<and>
      (isDragging s \<or> items s = history s ! historyIndex s))"

text \<open>The item \<open>addText\<close> creates, for the examples below.\<close>

definition text_item :: "string \<Rightarrow> real \<Rightarrow> LayoutItem" where
  "text_item ident z =
     \<lparr>item_id = ident, item_type = Text, content = ''Double click to edit'',
      item_x = 100, item_y = 100, width = 200, height = 60, zIndex = z,
      rotation = 0, borderRadius = Some 0, style = [], shapeType = None, color = None\<rparr>"

text \<open>The item \<open>addToCanvas\<close> creates for an image asset.\<close>

definition image_item :: "string \<Rightarrow> real \<Rightarrow> LayoutItem" where
  "image_item ident z =
     \<lparr>item_id = ident, item_type = Image, content = ''data:image/png;base64,AA'',
      item_x = 50, item_y = 50, width = 300, height = 300, zIndex = z,
      rotation = 0, borderRadius = Some 0, style = [], shapeType = None, color = None\<rparr>"

text \<open>Two text items, the second moved to \<open>x = 300\<close>, and the first one grabbed.\<close>

definition two_items_dragging :: editor_state where
  "two_items_dragging =
     handleMouseDown exact_sub 100 100 ''a''
       (handlePropertyChange (SetX 300) (addText ''b'' (addText ''a'' initial_state)))"

subsection \<open>Notions the properties are stated with\<close>

text \<open>The descriptor stored under the key \<open>clipPath\<close> of an item's style.\<close>

definition clipPath_of :: "LayoutItem \<Rightarrow> string option" where
  "clipPath_of item =
     (case map_of (style item) ''clipPath'' of Some (StrV d) \<Rightarrow> Some d | _ \<Rightarrow> None)"

text \<open>The pointer-moves of one gesture, in order.\<close>

primrec handleMouseMoves :: "(real \<Rightarrow> real \<Rightarrow> real) \<Rightarrow> (real \<times> real) list
    \<Rightarrow> editor_state \<Rightarrow> editor_state" where
  "handleMouseMoves fsub [] s = s"
| "handleMouseMoves fsub (m # ms) s =
     handleMouseMoves fsub ms (handleMouseMove fsub (fst m) (snd m) s)"

text \<open>
  An item is clear of a candidate \<open>cx\<close> and a line \<open>ox\<close> when it is the dragged item, or its
  left edge is on the line, or the snap test of its left edge fails both from the candidate
  and from the line (the differences are the ones the code computes).
\<close>

definition clear_of :: "(real \<Rightarrow> real \<Rightarrow> real) \<Rightarrow> string option \<Rightarrow> real \<Rightarrow> real \<Rightarrow> LayoutItem
    \<Rightarrow> bool" where
  "clear_of fsub sel cx ox other =
     (Some (item_id other) = sel \<or> item_x other = ox \<or>
      (SNAP_THRESHOLD \<le> \<bar>fsub cx (item_x other)\<bar> \<and>
       SNAP_THRESHOLD \<le> \<bar>fsub ox (item_x other)\<bar>))"

section \<open>Properties\<close>

lemmas ev_defs = initial_state_def addText_def addToCanvas_def updateItems_def recordHistory_def
  handleMouseDown_def handleMouseMove_def handleMouseUp_def handleUndo_def handleRedo_def
  truthy_def Let_def snap_def snap_other_def find_item_def SNAP_THRESHOLD_def text_item_def
  exact_sub_def

lemmas crop_defs = startCrop_def setCropToolType_def handleCropClick_def cancelCrop_def
  applyCrop_def crop_button_shown_def crop_toolbar_shown_def crop_sliders_shown_def
  selectedItem_def zero_rect_def image_item_def handleCanvasClick_def bubble_to_crop_click_def

lemma list_all_mapI: "(\<And>x. x \<in> set xs \<Longrightarrow> P (f x)) \<Longrightarrow> list_all P (map f xs)"
  by (induction xs) auto

lemma list_ex_mapI: "x \<in> set xs \<Longrightarrow> P (f x) \<Longrightarrow> list_ex P (map f xs)"
  by (induction xs) auto


subsection \<open>History\<close>

lemma recordHistory_history:
  "history (recordHistory n s) = take (historyIndex s + 1) (history s) @ [n]"
  by (simp add: recordHistory_def Let_def)

lemma recordHistory_index:
  "historyIndex (recordHistory n s) = min (historyIndex s + 1) (length (history s))"
  by (simp add: recordHistory_def Let_def)

lemma recordHistory_others:
  "items (recordHistory n s) = items s"
  "isDragging (recordHistory n s) = isDragging s"
  "cropModeItem (recordHistory n s) = cropModeItem s"
  by (simp_all add: recordHistory_def Let_def)

lemma recordHistory_cursor:
  "historyIndex (recordHistory n s) < length (history (recordHistory n s))"
  "history (recordHistory n s) ! historyIndex (recordHistory n s) = n"
  by (simp_all add: recordHistory_def Let_def nth_append)

text \<open>
  Claim C1. A commit keeps the entries up to and including the cursor, drops every entry
  after it, appends the committed scene and moves the cursor to the new last index. In the
  state a commit leaves, redo changes nothing; this holds for every state the commit starts
  from, so also for one that undo calls led to.
\<close>

theorem recordHistory_truncates_and_redo_is_noop:
  "history (recordHistory scene s) = take (historyIndex s + 1) (history s) @ [scene]
   \<and> historyIndex (recordHistory scene s) = length (history (recordHistory scene s)) - 1
   \<and> last (history (recordHistory scene s)) = scene
   \<and> handleRedo (recordHistory scene s) = recordHistory scene s"
  by (simp add: recordHistory_def handleRedo_def Let_def)

text \<open>
  The theorem at the state two additions and two undo calls lead to: the commit leaves two
  entries, the cursor on the second, and redo does nothing.
\<close>

theorem recordHistory_truncates_and_redo_is_noop_witness:
  "history (recordHistory [text_item ''c'' 1]
      (initial_state\<lparr>history := [[], [text_item ''a'' 1], [text_item ''a'' 1, text_item ''b'' 2]]\<rparr>))
     = [[], [text_item ''c'' 1]]
   \<and> historyIndex (recordHistory [text_item ''c'' 1]
      (initial_state\<lparr>history := [[], [text_item ''a'' 1], [text_item ''a'' 1, text_item ''b'' 2]]\<rparr>))
     = 1
   \<and> handleRedo (recordHistory [text_item ''c'' 1]
      (initial_state\<lparr>history := [[], [text_item ''a'' 1], [text_item ''a'' 1, text_item ''b'' 2]]\<rparr>))
     = recordHistory [text_item ''c'' 1]
      (initial_state\<lparr>history := [[], [text_item ''a'' 1], [text_item ''a'' 1, text_item ''b'' 2]]\<rparr>)"
  using recordHistory_truncates_and_redo_is_noop
    [of "[text_item ''c'' 1]"
        "initial_state\<lparr>history := [[], [text_item ''a'' 1], [text_item ''a'' 1, text_item ''b'' 2]]\<rparr>"]
  by (simp add: initial_state_def)

subsection \<open>The invariant holds in every reachable state\<close>

lemma updateItems_synced: "no_drag_synced (updateItems n True s)"
  by (simp add: no_drag_synced_def updateItems_def Let_def recordHistory_cursor recordHistory_others)

lemma updateItems_isDragging: "isDragging (updateItems n True s) = isDragging s"
  by (simp add: updateItems_def Let_def recordHistory_others)

lemma synced_sel: "no_drag_synced (s\<lparr>selectedItemId := v\<rparr>) = no_drag_synced s"
  and synced_crop: "no_drag_synced (s\<lparr>cropModeItem := c\<rparr>) = no_drag_synced s"
  by (simp_all add: no_drag_synced_def)

lemma synced_bubble: "no_drag_synced (bubble_to_crop_click pt s s1) = no_drag_synced s1"
  by (simp add: bubble_to_crop_click_def no_drag_synced_def)

lemma handleMouseUp_synced: "no_drag_synced s \<Longrightarrow> no_drag_synced (handleMouseUp s)"
proof cases
  assume "isDragging s"
  then show ?thesis
    by (simp add: handleMouseUp_def no_drag_synced_def recordHistory_cursor recordHistory_others)
next
  assume "\<not> isDragging s" and "no_drag_synced s"
  then show ?thesis
    by (simp add: handleMouseUp_def)
qed

lemma edits_synced:
  "no_drag_synced (addToCanvas a b c s)"
  "no_drag_synced (addText a s)"
  "no_drag_synced (addShape a st s)"
  by (simp_all add: addToCanvas_def addText_def addShape_def Let_def synced_sel updateItems_synced)

lemma handlers_synced:
  assumes "no_drag_synced s"
  shows "no_drag_synced (handleDelete s)"
    and "no_drag_synced (handlePropertyChange p s)"
    and "no_drag_synced (handleMouseDown fsub cx cy ident s)"
    and "no_drag_synced (handleMouseMove fsub cx cy s)"
    and "no_drag_synced (handleRedo s)"
    and "no_drag_synced (toggleSnapping s)"
    and "no_drag_synced (startCrop s)"
    and "no_drag_synced (setCropToolType tool s)"
    and "no_drag_synced (setCropRect side v s)"
    and "no_drag_synced (handleCropClick pt s)"
    and "no_drag_synced (applyCrop f s)"
    and "no_drag_synced (cancelCrop s)"
    and "no_drag_synced (handleCanvasClick s)"
proof -
  show "no_drag_synced (handleDelete s)"
    using assms by (simp add: handleDelete_def Let_def synced_sel updateItems_synced)
  show "no_drag_synced (handlePropertyChange p s)"
    using assms by (simp add: handlePropertyChange_def Let_def updateItems_synced)
  show "no_drag_synced (handleMouseDown fsub cx cy ident s)"
    using assms by (simp add: handleMouseDown_def no_drag_synced_def split: option.splits)
  show "no_drag_synced (handleMouseMove fsub cx cy s)"
    using assms by (simp add: handleMouseMove_def no_drag_synced_def Let_def split: prod.splits)
  show "no_drag_synced (handleRedo s)"
    using assms by (simp add: handleRedo_def no_drag_synced_def)
  show "no_drag_synced (toggleSnapping s)"
    using assms by (simp add: toggleSnapping_def no_drag_synced_def)
  show "no_drag_synced (startCrop s)"
    using assms by (simp add: startCrop_def no_drag_synced_def)
  show "no_drag_synced (setCropToolType tool s)"
    using assms by (simp add: setCropToolType_def no_drag_synced_def)
  show "no_drag_synced (setCropRect side v s)"
    using assms by (cases side) (simp_all add: no_drag_synced_def)
  show "no_drag_synced (handleCropClick pt s)"
    using assms by (simp add: handleCropClick_def no_drag_synced_def)
  show "no_drag_synced (applyCrop f s)"
    using assms by (simp add: applyCrop_def Let_def synced_crop updateItems_synced)
  show "no_drag_synced (cancelCrop s)"
    using assms by (simp add: cancelCrop_def synced_crop)
  show "no_drag_synced (handleCanvasClick s)"
    using assms by (simp add: handleCanvasClick_def no_drag_synced_def)
qed

lemma handleUndo_synced:
  "no_drag_synced s \<Longrightarrow> handleUndo s = Some s1 \<Longrightarrow> no_drag_synced s1"
  by (auto simp: handleUndo_def no_drag_synced_def split: if_splits)

lemma step_synced:
  assumes inv: "no_drag_synced s" and st: "step f fsub s e = Some s1"
  shows "no_drag_synced s1"
proof (cases e)
  case (AddToCanvas a b c)
  with st have "s1 = addToCanvas a b c s" by simp
  then show ?thesis by (simp add: edits_synced)
next
  case (AddText a)
  with st have "s1 = addText a s" by simp
  then show ?thesis by (simp add: edits_synced)
next
  case (AddShape a b)
  with st have "s1 = addShape a b s" by simp
  then show ?thesis by (simp add: edits_synced)
next
  case Delete
  with st have "s1 = handleDelete s" by simp
  then show ?thesis by (simp add: handlers_synced(1) [OF inv])
next
  case (PropertyChange p)
  with st have "s1 = (if prop_input_shown s p then handlePropertyChange p s else s)" by simp
  then show ?thesis by (simp add: handlers_synced(2) [OF inv] inv)
next
  case (MouseDown a b c)
  with st have "s1 = handleMouseDown fsub a b c s" by simp
  then show ?thesis by (simp add: handlers_synced(3) [OF inv])
next
  case (MouseMove a b)
  with st have "s1 = handleMouseMove fsub a b s" by simp
  then show ?thesis by (simp add: handlers_synced(4) [OF inv])
next
  case MouseUp
  with st have "s1 = handleMouseUp s" by simp
  then show ?thesis by (simp add: handleMouseUp_synced [OF inv])
next
  case Undo
  with st have "handleUndo s = Some s1" by simp
  then show ?thesis by (rule handleUndo_synced [OF inv])
next
  case Redo
  with st have "s1 = handleRedo s" by simp
  then show ?thesis by (simp add: handlers_synced(5) [OF inv])
next
  case ToggleSnapping
  with st have "s1 = toggleSnapping s" by simp
  then show ?thesis by (simp add: handlers_synced(6) [OF inv])
next
  case StartCrop
  with st have "s1 = (if crop_button_shown s then startCrop s else s)" by simp
  then show ?thesis by (simp add: handlers_synced(7) [OF inv] inv)
next
  case (SetCropToolType t pt)
  with st have "s1 = (if crop_toolbar_shown s
      then bubble_to_crop_click pt s (setCropToolType t s) else s)" by simp
  then show ?thesis by (simp add: synced_bubble handlers_synced(8) [OF inv] inv)
next
  case (SetCropRect side v)
  with st have "s1 = (if crop_sliders_shown s \<and> 0 \<le> v \<and> v \<le> 50 then setCropRect side v s else s)"
    by simp
  then show ?thesis by (simp add: handlers_synced(9) [OF inv] inv)
next
  case (CropClick pt)
  with st have "s1 = (if crop_toolbar_shown s then handleCropClick pt s else s)" by simp
  then show ?thesis by (simp add: handlers_synced(10) [OF inv] inv)
next
  case (ApplyCrop pt)
  with st have "s1 = (if crop_toolbar_shown s
      then bubble_to_crop_click pt s (applyCrop f s) else s)" by simp
  then show ?thesis by (simp add: synced_bubble handlers_synced(11) [OF inv] inv)
next
  case (CancelCrop pt)
  with st have "s1 = (if crop_toolbar_shown s
      then bubble_to_crop_click pt s (cancelCrop s) else s)" by simp
  then show ?thesis by (simp add: synced_bubble handlers_synced(12) [OF inv] inv)
next
  case CanvasClick
  with st have "s1 = handleCanvasClick s" by simp
  then show ?thesis by (simp add: handlers_synced(13) [OF inv])
qed

lemma reachable_synced: "reachable f fsub s \<Longrightarrow> no_drag_synced s"
proof (induction rule: reachable.induct)
  case reachable_init
  show ?case by (simp add: no_drag_synced_def initial_state_def)
next
  case (reachable_step s e s1)
  then show ?case using step_synced by blast
qed

lemma run_reachable: "reachable f fsub s \<Longrightarrow> run f fsub s es = Some s1 \<Longrightarrow> reachable f fsub s1"
proof (induction es arbitrary: s)
  case Nil
  then show ?case by simp
next
  case (Cons e es)
  then show ?case
    by (auto split: option.splits intro: reachable_step)
qed

lemma step_total: "no_drag_synced s \<Longrightarrow> \<exists>s1. step f fsub s e = Some s1"
  by (cases e) (auto simp: handleUndo_def no_drag_synced_def)

subsection \<open>The displayed scene and the history entry at the cursor\<close>

text \<open>
  Claim C3, amended. In every reachable state in which no drag is in progress the cursor
  is inside the history and the live items are the history entry at the cursor. (During a
  drag the pointer-moves write to the live items only; pointer-up commits them.)
\<close>

theorem items_are_history_entry_outside_drag:
  "reachable f fsub s \<Longrightarrow> \<not> isDragging s \<Longrightarrow>
     historyIndex s < length (history s) \<and> items s = history s ! historyIndex s"
  using reachable_synced [of f fsub s] by (simp add: no_drag_synced_def)

text \<open>
  The theorem after a whole gesture on one text item: add it, press on it, move it to
  \<open>x = 300\<close>, release. The state is reachable, no drag is in progress, and the entry at
  the cursor is the moved item.
\<close>

theorem items_are_history_entry_outside_drag_witness:
  "reachable (\<lambda>r. []) exact_sub (handleMouseUp (handleMouseMove exact_sub 305 105 (handleMouseDown exact_sub 105 105 ''a'' (addText ''a'' initial_state))))
  \<and> \<not> isDragging (handleMouseUp (handleMouseMove exact_sub 305 105 (handleMouseDown exact_sub 105 105 ''a'' (addText ''a'' initial_state))))
  \<and> items (handleMouseUp (handleMouseMove exact_sub 305 105 (handleMouseDown exact_sub 105 105 ''a'' (addText ''a'' initial_state)))) = [(text_item ''a'' 1)\<lparr>item_x := 300\<rparr>]
  \<and> history (handleMouseUp (handleMouseMove exact_sub 305 105 (handleMouseDown exact_sub 105 105 ''a'' (addText ''a'' initial_state)))) ! 2 = [(text_item ''a'' 1)\<lparr>item_x := 300\<rparr>]"
proof -
  let ?s = "handleMouseUp (handleMouseMove exact_sub 305 105 (handleMouseDown exact_sub 105 105 ''a'' (addText ''a'' initial_state)))"
  have "run (\<lambda>r. []) exact_sub initial_state [AddText ''a'', MouseDown 105 105 ''a'', MouseMove 305 105, MouseUp] = Some ?s"
    by simp
  then have r: "reachable (\<lambda>r. []) exact_sub ?s"
    using run_reachable [OF reachable_init] by blast
  have d: "\<not> isDragging ?s"
    by (simp add: ev_defs)
  have i: "items ?s = [(text_item ''a'' 1)\<lparr>item_x := 300\<rparr>]"
    by (simp add: ev_defs)
  have h: "historyIndex ?s = 2" by (simp add: ev_defs)
  from items_are_history_entry_outside_drag [OF r d] i h r d show ?thesis by simp
qed

text \<open>
  The claim as stated fails in the middle of the same gesture: after the pointer-move the
  live item is at \<open>x = 300\<close> and the entry at the cursor still has it at \<open>x = 100\<close>.
\<close>

theorem items_differ_from_history_entry_during_drag:
  "map_option
     (\<lambda>s. (isDragging s, map item_x (items s), map item_x (history s ! historyIndex s),
           items s = history s ! historyIndex s))
     (run (\<lambda>r. []) exact_sub initial_state [AddText ''a'', MouseDown 105 105 ''a'', MouseMove 305 105])
     = Some (True, [300], [100], False)"
  by (simp add: ev_defs)

text \<open>
  Claim C2, amended. In every reachable state with the cursor above 0 in which no drag is
  in progress, undo succeeds and undo followed by redo gives back the same items, the same
  history and the same cursor; of the whole state only the crop target is cleared.
\<close>

theorem undo_then_redo_restores_items_outside_drag:
  assumes "reachable f fsub s" and "0 < historyIndex s" and "\<not> isDragging s"
  shows "map_option handleRedo (handleUndo s) = Some (s\<lparr>cropModeItem := None\<rparr>)
     \<and> map_option (items \<circ> handleRedo) (handleUndo s) = Some (items s)"
proof -
  from assms(1) have inv: "no_drag_synced s" by (rule reachable_synced)
  with assms(3) have rng: "historyIndex s < length (history s)"
    and it: "items s = history s ! historyIndex s"
    by (simp_all add: no_drag_synced_def)
  from assms(2) rng have u: "handleUndo s =
      Some (s\<lparr>historyIndex := historyIndex s - 1, items := history s ! (historyIndex s - 1),
             cropModeItem := None\<rparr>)"
    by (simp add: handleUndo_def)
  from assms(2) rng it have r: "handleRedo (s\<lparr>historyIndex := historyIndex s - 1,
        items := history s ! (historyIndex s - 1), cropModeItem := None\<rparr>)
      = s\<lparr>cropModeItem := None\<rparr>"
    by (simp add: handleRedo_def)
  from u r show ?thesis by simp
qed

text \<open>The theorem in the state one added text item leaves.\<close>

theorem undo_then_redo_restores_items_outside_drag_witness:
  "reachable (\<lambda>r. []) exact_sub (addText ''a'' initial_state)
   \<and> 0 < historyIndex (addText ''a'' initial_state)
   \<and> \<not> isDragging (addText ''a'' initial_state)
   \<and> map_option (items \<circ> handleRedo) (handleUndo (addText ''a'' initial_state)) = Some [text_item ''a'' 1]"
proof -
  let ?s = "addText ''a'' initial_state"
  have "run (\<lambda>r. []) exact_sub initial_state [AddText ''a''] = Some ?s"
    by simp
  then have r: "reachable (\<lambda>r. []) exact_sub ?s"
    using run_reachable [OF reachable_init] by blast
  have c: "0 < historyIndex ?s" by (simp add: ev_defs)
  have d: "\<not> isDragging ?s" by (simp add: ev_defs)
  have i: "items ?s = [text_item ''a'' 1]" by (simp add: ev_defs)
  from undo_then_redo_restores_items_outside_drag [OF r c d] r c d i show ?thesis by simp
qed

text \<open>
  The claim as stated fails for an undo in the middle of a drag (the Undo button stays
  enabled then, and it can be activated from the keyboard without a pointer-up): before
  the undo the live item is at \<open>x = 300\<close> and the cursor is 1; after undo and redo it is
  back at the committed \<open>x = 100\<close>.
\<close>

theorem undo_then_redo_loses_uncommitted_drag:
  "map_option (\<lambda>s. (0 < historyIndex s, map item_x (items s)))
     (run (\<lambda>r. []) exact_sub initial_state [AddText ''a'', MouseDown 105 105 ''a'', MouseMove 305 105])
     = Some (True, [300])
   \<and> map_option (\<lambda>s. map item_x (items s))
     (run (\<lambda>r. []) exact_sub initial_state
        [AddText ''a'', MouseDown 105 105 ''a'', MouseMove 305 105, Undo, Redo])
     = Some [100]"
  by (simp add: ev_defs)

subsection \<open>Crop tools\<close>




text \<open>
  Claim C6. Applying a crop in lasso mode with fewer than 3 points only leaves crop mode:
  the result is the same state with the crop target cleared, so the items (and with them
  every style) and the history with its cursor are what they were.
\<close>

theorem applyCrop_lasso_few_points:
  assumes "truthy (cropModeItem s)" and "cropToolType s = Lasso" and "length (lassoPoints s) < 3"
  shows "applyCrop numToString s = s\<lparr>cropModeItem := None\<rparr>
     \<and> cropModeItem (applyCrop numToString s) = None
     \<and> items (applyCrop numToString s) = items s
     \<and> history (applyCrop numToString s) = history s
     \<and> historyIndex (applyCrop numToString s) = historyIndex s"
  using assms by (simp add: applyCrop_def Let_def)

text \<open>The theorem for an image being cropped with two lasso points.\<close>

theorem applyCrop_lasso_few_points_witness:
  "truthy (Some ''a'') \<and> length [(10, 10), (90, 10 :: real)] < 3
   \<and> applyCrop (\<lambda>r. [])
       (initial_state\<lparr>items := [image_item ''a'' 1], history := [[], [image_item ''a'' 1]],
          historyIndex := 1, selectedItemId := Some ''a'', cropModeItem := Some ''a'',
          cropToolType := Lasso, lassoPoints := [(10, 10), (90, 10)]\<rparr>)
     = initial_state\<lparr>items := [image_item ''a'' 1], history := [[], [image_item ''a'' 1]],
          historyIndex := 1, selectedItemId := Some ''a'', cropModeItem := None,
          cropToolType := Lasso, lassoPoints := [(10, 10), (90, 10)]\<rparr>"
  using applyCrop_lasso_few_points [of
       "initial_state\<lparr>items := [image_item ''a'' 1], history := [[], [image_item ''a'' 1]],
          historyIndex := 1, selectedItemId := Some ''a'', cropModeItem := Some ''a'',
          cropToolType := Lasso, lassoPoints := [(10, 10), (90, 10)]\<rparr>" "\<lambda>r. []"]
  by (simp add: truthy_def initial_state_def)

subsection \<open>The inset descriptor of a rect crop\<close>

text \<open>Printing a whole number and reading it back.\<close>

lemma digit_char_ok: "d < 10 \<Longrightarrow> is_digit (digit_char d) \<and> digit_val (digit_char d) = d"
  by (simp add: is_digit_def digit_val_def digit_char_def)

lemma nat_digits_are_digits: "c \<in> set (nat_digits n) \<Longrightarrow> is_digit c"
proof (induction n rule: nat_digits.induct)
  case (1 n)
  then show ?case
    by (subst (asm) (2) nat_digits.simps) (auto simp: digit_char_ok split: if_splits)
qed

lemma nat_digits_nonempty: "nat_digits n \<noteq> []"
  by (subst nat_digits.simps) simp

lemma nat_digits_value: "foldl (\<lambda>a c. 10 * a + digit_val c) 0 (nat_digits n) = n"
proof (induction n rule: nat_digits.induct)
  case (1 n)
  then show ?case
    by (subst nat_digits.simps) (simp add: digit_char_ok)
qed

lemma percent_not_digit: "\<not> is_digit CHR ''%''"
  by (simp add: is_digit_def)

lemma read_number_int_to_string:
  assumes nonneg: "0 \<le> i"
  shows "read_number (int_to_string i @ CHR ''%'' # rest) = Some (i, CHR ''%'' # rest)"
proof -
  have all: "\<forall>c \<in> set (nat_digits (nat i)). is_digit c"
    using nat_digits_are_digits by blast
  have tw: "takeWhile is_digit (nat_digits (nat i) @ CHR ''%'' # rest) = nat_digits (nat i)"
    using all by (simp add: percent_not_digit)
  have dw: "dropWhile is_digit (nat_digits (nat i) @ CHR ''%'' # rest) = CHR ''%'' # rest"
    using all by (simp add: percent_not_digit)
  show ?thesis
    using nonneg
    by (simp add: read_number_def int_to_string_def tw dw nat_digits_nonempty nat_digits_value)
qed

lemma inset_values_inset_string:
  "0 \<le> crop_t cr \<Longrightarrow> 0 \<le> crop_r cr \<Longrightarrow> 0 \<le> crop_b cr \<Longrightarrow> 0 \<le> crop_l cr \<Longrightarrow>
   inset_values (inset_string cr) = Some (crop_t cr, crop_r cr, crop_b cr, crop_l cr)"
  by (simp add: inset_values_def inset_string_def read_number_int_to_string)

lemma inset_string_nonempty: "inset_string cr \<noteq> []"
  by (simp add: inset_string_def)

text \<open>
  Claim C7. Applying a crop in rect mode with the four insets each between 0 and 50 stores,
  in every item with the target id, the descriptor printed from the insets under the key
  \<open>clipPath\<close>; read back, that descriptor gives exactly the four stored values in the order
  top, right, bottom, left. The new items are committed and crop mode is left.
\<close>

theorem applyCrop_rect_stores_insets:
  assumes crop: "cropModeItem s = Some target" "target \<noteq> []"
    and tool: "cropToolType s = Rect"
    and rng: "0 \<le> crop_t (cropRect s)" "crop_t (cropRect s) \<le> 50"
             "0 \<le> crop_r (cropRect s)" "crop_r (cropRect s) \<le> 50"
             "0 \<le> crop_b (cropRect s)" "crop_b (cropRect s) \<le> 50"
             "0 \<le> crop_l (cropRect s)" "crop_l (cropRect s) \<le> 50"
    and k: "k < length (items s)" "item_id (items s ! k) = target"
  shows "length (items (applyCrop numToString s)) = length (items s)
     \<and> item_id (items (applyCrop numToString s) ! k) = target
     \<and> clipPath_of (items (applyCrop numToString s) ! k) = Some (inset_string (cropRect s))
     \<and> Option.bind (clipPath_of (items (applyCrop numToString s) ! k)) inset_values
         = Some (crop_t (cropRect s), crop_r (cropRect s), crop_b (cropRect s), crop_l (cropRect s))
     \<and> last (history (applyCrop numToString s)) = items (applyCrop numToString s)
     \<and> cropModeItem (applyCrop numToString s) = None"
proof -
  let ?new = "map (\<lambda>item. if Some (item_id item) = cropModeItem s
                 then item\<lparr>style := AList.update ''clipPath'' (StrV (inset_string (cropRect s))) (style item)\<rparr>
                 else item) (items s)"
  have ac: "applyCrop numToString s = (updateItems ?new True s)\<lparr>cropModeItem := None\<rparr>"
    using crop tool by (simp add: applyCrop_def Let_def truthy_def inset_string_nonempty)
  have its: "items (applyCrop numToString s) = ?new"
    by (simp add: ac updateItems_def Let_def recordHistory_others)
  have hist: "last (history (applyCrop numToString s)) = ?new"
    by (simp add: ac updateItems_def Let_def recordHistory_history)
  have cp: "clipPath_of (?new ! k) = Some (inset_string (cropRect s))"
    using k crop by (simp add: clipPath_of_def update_conv')
  have iv: "inset_values (inset_string (cropRect s))
      = Some (crop_t (cropRect s), crop_r (cropRect s), crop_b (cropRect s), crop_l (cropRect s))"
    using rng by (simp add: inset_values_inset_string)
  have idk: "item_id (?new ! k) = target"
    using k by simp
  show ?thesis
    using its hist cp iv idk by (simp add: ac)
qed

text \<open>
  The theorem for insets 10, 10, 10, 10 on an image being cropped: the stored descriptor is
  the text \<open>inset(10% 10% 10% 10%)\<close>.
\<close>

theorem applyCrop_rect_stores_insets_witness:
  "clipPath_of (items (applyCrop (\<lambda>r. [])
       (initial_state\<lparr>items := [image_item ''a'' 1], history := [[], [image_item ''a'' 1]],
          historyIndex := 1, selectedItemId := Some ''a'', cropModeItem := Some ''a'',
          cropToolType := Rect, cropRect := \<lparr>crop_t = 10, crop_r = 10, crop_b = 10, crop_l = 10\<rparr>\<rparr>)) ! 0)
     = Some ''inset(10% 10% 10% 10%)''
   \<and> inset_values ''inset(10% 10% 10% 10%)'' = Some (10, 10, 10, 10)"
proof -
  let ?s = "initial_state\<lparr>items := [image_item ''a'' 1], history := [[], [image_item ''a'' 1]],
          historyIndex := 1, selectedItemId := Some ''a'', cropModeItem := Some ''a'',
          cropToolType := Rect, cropRect := \<lparr>crop_t = 10, crop_r = 10, crop_b = 10, crop_l = 10\<rparr>\<rparr>"
  have str: "inset_string \<lparr>crop_t = 10, crop_r = 10, crop_b = 10, crop_l = 10\<rparr> = ''inset(10% 10% 10% 10%)''"
    by code_simp
  have pre: "cropModeItem ?s = Some ''a''" "''a'' \<noteq> []" "cropToolType ?s = Rect"
    "0 \<le> crop_t (cropRect ?s)" "crop_t (cropRect ?s) \<le> 50"
    "0 \<le> crop_r (cropRect ?s)" "crop_r (cropRect ?s) \<le> 50"
    "0 \<le> crop_b (cropRect ?s)" "crop_b (cropRect ?s) \<le> 50"
    "0 \<le> crop_l (cropRect ?s)" "crop_l (cropRect ?s) \<le> 50"
    "0 < length (items ?s)" "item_id (items ?s ! 0) = ''a''"
    by (simp_all add: initial_state_def image_item_def)
  have cr: "cropRect ?s = \<lparr>crop_t = 10, crop_r = 10, crop_b = 10, crop_l = 10\<rparr>"
    by (simp add: initial_state_def)
  note inst = applyCrop_rect_stores_insets [OF pre, of "\<lambda>r. []"]
  from inst have a: "clipPath_of (items (applyCrop (\<lambda>r. []) ?s) ! 0) = Some (inset_string (cropRect ?s))"
    by blast
  from inst have b: "Option.bind (clipPath_of (items (applyCrop (\<lambda>r. []) ?s) ! 0)) inset_values
      = Some (crop_t (cropRect ?s), crop_r (cropRect ?s), crop_b (cropRect ?s), crop_l (cropRect ?s))"
    by blast
  from a have a': "clipPath_of (items (applyCrop (\<lambda>r. []) ?s) ! 0) = Some ''inset(10% 10% 10% 10%)''"
    by (simp only: cr str)
  from b have "inset_values ''inset(10% 10% 10% 10%)'' = Some (10, 10, 10, 10)"
    unfolding a' by (simp add: cr)
  with a' show ?thesis by simp
qed

subsection \<open>The click on Apply as an event\<close>

text \<open>
  The click on Apply also bubbles to \<open>handleCropClick\<close>. In rect mode that handler does
  nothing, so the event is \<open>applyCrop\<close> alone. In lasso mode it adds the clicked point to a
  list that \<open>applyCrop\<close> has already read: with fewer than 3 points recorded the event
  still changes neither items nor history and leaves crop mode.
\<close>

lemma apply_click_rect:
  assumes "crop_toolbar_shown s" and "cropToolType s = Rect"
  shows "step f fsub s (ApplyCrop pt) = Some (applyCrop f s)"
proof -
  have "lassoPoints (applyCrop f s) = lassoPoints s"
    by (simp add: applyCrop_def Let_def updateItems_def recordHistory_def)
  then have "bubble_to_crop_click pt s (applyCrop f s) = applyCrop f s"
    using assms(2) by (simp add: bubble_to_crop_click_def handleCropClick_def)
  with assms(1) show ?thesis by simp
qed

lemma apply_click_lasso_few_points:
  assumes "crop_toolbar_shown s" and "truthy (cropModeItem s)" and "cropToolType s = Lasso"
    and "length (lassoPoints s) < 3"
  shows "step f fsub s (ApplyCrop pt) =
     Some (s\<lparr>cropModeItem := None, lassoPoints := lassoPoints s @ [pt]\<rparr>)"
  using assms
  by (simp add: bubble_to_crop_click_def handleCropClick_def applyCrop_def Let_def)

subsection \<open>Entering crop mode\<close>

text \<open>
  Claim C8. The Crop button is rendered only while an item is selected, no crop is active
  and the selected item is an image; the handler behind it needs a selection. So the
  start-crop event enters crop mode exactly then, with the selected item as target, the rect
  tool, zero insets and no lasso points; in every other state it changes nothing.
\<close>

theorem startCrop_only_for_selected_image:
  "step f fsub s StartCrop =
     Some (if truthy (selectedItemId s) \<and> \<not> truthy (cropModeItem s)
              \<and> (\<exists>i. find_item (items s) (selectedItemId s) = Some i \<and> item_type i = Image)
           then s\<lparr>cropModeItem := selectedItemId s, cropToolType := Rect,
                  cropRect := \<lparr>crop_t = 0, crop_r = 0, crop_b = 0, crop_l = 0\<rparr>,
                  lassoPoints := []\<rparr>
           else s)"
  by (auto simp: crop_button_shown_def selectedItem_def startCrop_def zero_rect_def
      split: option.splits)

text \<open>
  The theorem with an image and a text item on the canvas: with the image selected the crop
  starts (and earlier working data is reset); with the text item selected, or with nothing
  selected, the state stays as it is.
\<close>

theorem startCrop_only_for_selected_image_witness:
  "step (\<lambda>r. []) exact_sub
     (initial_state\<lparr>items := [image_item ''a'' 1, text_item ''b'' 2],
        selectedItemId := Some ''a'', cropToolType := Lasso,
        cropRect := \<lparr>crop_t = 10, crop_r = 0, crop_b = 0, crop_l = 0\<rparr>,
        lassoPoints := [(10, 10)]\<rparr>) StartCrop
     = Some (initial_state\<lparr>items := [image_item ''a'' 1, text_item ''b'' 2],
        selectedItemId := Some ''a'', cropModeItem := Some ''a''\<rparr>)
   \<and> step (\<lambda>r. []) exact_sub
     (initial_state\<lparr>items := [image_item ''a'' 1, text_item ''b'' 2],
        selectedItemId := Some ''b''\<rparr>) StartCrop
     = Some (initial_state\<lparr>items := [image_item ''a'' 1, text_item ''b'' 2],
        selectedItemId := Some ''b''\<rparr>)
   \<and> step (\<lambda>r. []) exact_sub
     (initial_state\<lparr>items := [image_item ''a'' 1, text_item ''b'' 2]\<rparr>) StartCrop
     = Some (initial_state\<lparr>items := [image_item ''a'' 1, text_item ''b'' 2]\<rparr>)"
  using startCrop_only_for_selected_image [of "\<lambda>r. []" exact_sub
      "initial_state\<lparr>items := [image_item ''a'' 1, text_item ''b'' 2],
        selectedItemId := Some ''a'', cropToolType := Lasso,
        cropRect := \<lparr>crop_t = 10, crop_r = 0, crop_b = 0, crop_l = 0\<rparr>,
        lassoPoints := [(10, 10)]\<rparr>"]
    startCrop_only_for_selected_image [of "\<lambda>r. []" exact_sub
      "initial_state\<lparr>items := [image_item ''a'' 1, text_item ''b'' 2],
        selectedItemId := Some ''b''\<rparr>"]
    startCrop_only_for_selected_image [of "\<lambda>r. []" exact_sub
      "initial_state\<lparr>items := [image_item ''a'' 1, text_item ''b'' 2]\<rparr>"]
  by (simp add: initial_state_def truthy_def find_item_def image_item_def text_item_def
      zero_rect_def)

subsection \<open>Dragging with snapping switched off\<close>

lemma two_items_dragging_eq:
  "two_items_dragging = initial_state
     \<lparr>items := [text_item ''a'' 1, (text_item ''b'' 2)\<lparr>item_x := 300\<rparr>],
      selectedItemId := Some ''a'',
      history := [[], [text_item ''a'' 1], [text_item ''a'' 1, text_item ''b'' 2],
                  [text_item ''a'' 1, (text_item ''b'' 2)\<lparr>item_x := 300\<rparr>]],
      historyIndex := 3, isDragging := True, dragOffset := (0, 0)\<rparr>"
  by (simp add: two_items_dragging_def ev_defs handlePropertyChange_def)

lemma setCropRect_snappingEnabled:
  "snappingEnabled (setCropRect side v s) = snappingEnabled s"
  by (cases side) simp_all

lemma snappingEnabled_step:
  "step f fsub s e = Some s1 \<Longrightarrow>
     snappingEnabled s1 = (if e = ToggleSnapping then \<not> snappingEnabled s else snappingEnabled s)"
  by (cases e)
     (auto simp: ev_defs crop_defs addShape_def handleDelete_def handlePropertyChange_def
        toggleSnapping_def setCropRect_snappingEnabled split: if_splits option.splits prod.splits)

text \<open>
  Claim C10. Snapping is gated on the flag \<open>snappingEnabled\<close>, which only the toggle event
  changes. For every pointer-move of a drag in progress while the flag is off, the guide list
  of the frame is empty and the dragged item gets the candidate position, pointer minus
  offset as the code computes it, unchanged; every other item is left as it is.
\<close>

theorem handleMouseMove_snapping_disabled:
  assumes "isDragging s" and "truthy (selectedItemId s)" and "\<not> truthy (cropModeItem s)"
    and "\<not> snappingEnabled s"
  shows "snapGuides (handleMouseMove fsub clientX clientY s) = []
     \<and> items (handleMouseMove fsub clientX clientY s) =
         map (\<lambda>item. if Some (item_id item) = selectedItemId s
                then item\<lparr>item_x := fsub clientX (fst (dragOffset s)),
                          item_y := fsub clientY (snd (dragOffset s))\<rparr>
                else item) (items s)"
  using assms by (simp add: handleMouseMove_def Let_def)

text \<open>
  The theorem with two text items, the second at \<open>x = 300\<close>, the first dragged to the
  candidate (295, 5) with snapping off: it lands on (295, 5) with no guide. With snapping on
  the same move records a guide at the canvas top and one at \<open>x = 300\<close>.
\<close>

theorem handleMouseMove_snapping_disabled_witness:
  "isDragging (toggleSnapping two_items_dragging)
   \<and> \<not> snappingEnabled (toggleSnapping two_items_dragging)
   \<and> snapGuides (handleMouseMove exact_sub 295 5 (toggleSnapping two_items_dragging)) = []
   \<and> map (\<lambda>i. (item_id i, item_x i, item_y i))
        (items (handleMouseMove exact_sub 295 5 (toggleSnapping two_items_dragging)))
       = [(''a'', 295, 5), (''b'', 300, 100)]
   \<and> snapGuides (handleMouseMove exact_sub 295 5 two_items_dragging) = [(AxisY, 0), (AxisX, 300)]"
proof -
  let ?s = "toggleSnapping two_items_dragging"
  have pre: "isDragging ?s" "truthy (selectedItemId ?s)" "\<not> truthy (cropModeItem ?s)"
      "\<not> snappingEnabled ?s"
    by (simp_all add: two_items_dragging_eq toggleSnapping_def initial_state_def truthy_def)
  note inst = handleMouseMove_snapping_disabled
    [OF pre, where fsub = exact_sub and clientX = 295 and clientY = 5]
  have its: "items ?s = [text_item ''a'' 1, (text_item ''b'' 2)\<lparr>item_x := 300\<rparr>]"
    "selectedItemId ?s = Some ''a''" "dragOffset ?s = (0, 0)"
    by (simp_all add: two_items_dragging_eq toggleSnapping_def initial_state_def)
  from inst have g: "snapGuides (handleMouseMove exact_sub 295 5 ?s) = []" by blast
  from inst have i: "map (\<lambda>i. (item_id i, item_x i, item_y i)) (items (handleMouseMove exact_sub 295 5 ?s))
       = [(''a'', 295, 5), (''b'', 300, 100)]"
    by (simp add: its text_item_def exact_sub_def)
  have on: "snapGuides (handleMouseMove exact_sub 295 5 two_items_dragging) = [(AxisY, 0), (AxisX, 300)]"
    by (simp add: two_items_dragging_eq ev_defs)
  from pre g i on show ?thesis by simp
qed

subsection \<open>Snapping to another item's left edge\<close>

lemma snap_other_fst:
  "fst (snap_other fsub sel other acc) =
     (if Some (item_id other) \<noteq> sel \<and> \<bar>fsub (fst acc) (item_x other)\<bar> < SNAP_THRESHOLD
      then item_x other else fst acc)"
  by (cases acc) (simp add: snap_other_def Let_def split: prod.splits)

lemma snap_other_guides_mono:
  "set (snd (snd acc)) \<subseteq> set (snd (snd (snap_other fsub sel other acc)))"
  by (cases acc) (auto simp: snap_other_def Let_def split: prod.splits)

lemma snap_other_guide_x:
  "Some (item_id other) \<noteq> sel \<Longrightarrow> \<bar>fsub (fst acc) (item_x other)\<bar> < SNAP_THRESHOLD \<Longrightarrow>
     (AxisX, item_x other) \<in> set (snd (snd (snap_other fsub sel other acc)))"
  by (cases acc) (auto simp: snap_other_def Let_def split: prod.splits)

lemma snap_others_guides_mono:
  "set (snd (snd acc)) \<subseteq> set (snd (snd (snap_others fsub sel its acc)))"
proof (induction its arbitrary: acc)
  case Nil
  show ?case by simp
next
  case (Cons it its)
  have "set (snd (snd acc)) \<subseteq> set (snd (snd (snap_other fsub sel it acc)))"
    by (rule snap_other_guides_mono)
  also have "\<dots> \<subseteq> set (snd (snd (snap_others fsub sel its (snap_other fsub sel it acc))))"
    by (rule Cons.IH)
  finally show ?case by simp
qed

lemma snap_other_stays:
  assumes "clear_of fsub sel cx ox other" and "fsub ox ox = 0" and "fst acc = ox"
  shows "fst (snap_other fsub sel other acc) = ox"
  using assms by (auto simp: snap_other_fst clear_of_def SNAP_THRESHOLD_def)

lemma snap_other_cand_or_line:
  assumes "clear_of fsub sel cx ox other" and "fst acc = cx \<or> fst acc = ox"
  shows "fst (snap_other fsub sel other acc) = cx \<or> fst (snap_other fsub sel other acc) = ox"
  using assms by (auto simp: snap_other_fst clear_of_def)

lemma snap_others_stays:
  assumes "list_all (clear_of fsub sel cx ox) its" and "fsub ox ox = 0" and "fst acc = ox"
  shows "fst (snap_others fsub sel its acc) = ox"
  using assms
proof (induction its arbitrary: acc)
  case Nil
  then show ?case by simp
next
  case (Cons it its)
  from Cons.prems have "fst (snap_other fsub sel it acc) = ox"
    using snap_other_stays [where fsub = fsub and sel = sel and cx = cx and ox = ox
        and other = it and acc = acc] by simp
  with Cons.prems Cons.IH show ?case by simp
qed

lemma snap_others_reaches_line:
  assumes clr: "list_all (clear_of fsub sel cx ox) its"
    and self: "fsub ox ox = 0"
    and near: "\<bar>fsub cx ox\<bar> < SNAP_THRESHOLD"
    and start: "fst acc = cx \<or> fst acc = ox"
    and other: "other \<in> set its" "Some (item_id other) \<noteq> sel" "item_x other = ox"
  shows "fst (snap_others fsub sel its acc) = ox
     \<and> (AxisX, ox) \<in> set (snd (snd (snap_others fsub sel its acc)))"
  using clr start other(1)
proof (induction its arbitrary: acc)
  case Nil
  then show ?case by simp
next
  case (Cons it its)
  from Cons.prems have nxt:
    "fst (snap_other fsub sel it acc) = cx \<or> fst (snap_other fsub sel it acc) = ox"
    using snap_other_cand_or_line [where fsub = fsub and sel = sel and cx = cx and ox = ox
        and other = it and acc = acc] by simp
  from Cons.prems have rest: "list_all (clear_of fsub sel cx ox) its" by simp
  show ?case
  proof cases
    assume here: "it = other"
    from Cons.prems(2) near self other(3)
    have test: "\<bar>fsub (fst acc) (item_x other)\<bar> < SNAP_THRESHOLD"
      by (auto simp: SNAP_THRESHOLD_def)
    with other here have x: "fst (snap_other fsub sel it acc) = ox"
      by (simp add: snap_other_fst)
    from test other here have g: "(AxisX, ox) \<in> set (snd (snd (snap_other fsub sel it acc)))"
      using snap_other_guide_x [where fsub = fsub and sel = sel and other = other and acc = acc]
      by simp
    from rest self x have "fst (snap_others fsub sel its (snap_other fsub sel it acc)) = ox"
      by (rule snap_others_stays)
    moreover from g
    have "(AxisX, ox) \<in> set (snd (snd (snap_others fsub sel its (snap_other fsub sel it acc))))"
      using snap_others_guides_mono by blast
    ultimately show ?thesis by simp
  next
    assume "it \<noteq> other"
    with Cons.prems have "other \<in> set its" by simp
    with Cons.IH [OF rest nxt] show ?thesis by simp
  qed
qed

text \<open>
  Claim C5, amended. The differences are the ones the code computes (rounded, IEEE 754);
  of that subtraction the proof uses only that a coordinate minus itself is 0. In a drag
  with snapping active, let the candidate x pass the snap test of another item's left edge
  (the absolute difference is below the threshold), let it be at least the threshold away
  from the canvas origin, and let every further item be clear of the candidate and of that
  edge (its left edge is on the same line, or fails the snap test from both). Then the
  pointer-move records an x-axis guide at that line, and the scene committed at pointer-up
  is the moved scene, in which the dragged item has x exactly equal to the other item's x.
\<close>

theorem drag_snaps_to_left_edge:
  assumes drag: "isDragging s" "selectedItemId s = Some sid" "sid \<noteq> []"
      "\<not> truthy (cropModeItem s)"
    and on: "snappingEnabled s" "canvasRef s"
    and cur: "find_item (items s) (Some sid) = Some current"
    and other: "other \<in> set (items s)" "item_id other \<noteq> sid"
    and self: "fsub (item_x other) (item_x other) = 0"
    and near: "\<bar>fsub (fsub clientX (fst (dragOffset s))) (item_x other)\<bar> < SNAP_THRESHOLD"
    and origin: "SNAP_THRESHOLD \<le> \<bar>fsub clientX (fst (dragOffset s))\<bar>"
    and clear: "list_all (clear_of fsub (Some sid) (fsub clientX (fst (dragOffset s)))
        (item_x other)) (items s)"
  shows "(AxisX, item_x other) \<in> set (snapGuides (handleMouseMove fsub clientX clientY s))
     \<and> list_all (\<lambda>i. item_id i \<noteq> sid \<or> item_x i = item_x other)
          (last (history (handleMouseUp (handleMouseMove fsub clientX clientY s))))
     \<and> list_ex (\<lambda>i. item_id i = sid)
          (last (history (handleMouseUp (handleMouseMove fsub clientX clientY s))))
     \<and> last (history (handleMouseUp (handleMouseMove fsub clientX clientY s)))
          = items (handleMouseMove fsub clientX clientY s)"
proof -
  let ?cx = "fsub clientX (fst (dragOffset s))"
  let ?cy = "fsub clientY (snd (dragOffset s))"
  let ?s1 = "handleMouseMove fsub clientX clientY s"
  define r where "r = snap_others fsub (Some sid) (items s)
      (?cx, (if \<bar>?cy\<bar> < SNAP_THRESHOLD then 0 else ?cy),
       (if \<bar>?cy\<bar> < SNAP_THRESHOLD then [(AxisY, 0)] else []))"
  have sn: "snap fsub s (?cx, ?cy) = r"
    using cur origin drag(2) by (simp add: r_def snap_def Let_def)
  have hit: "fst r = item_x other \<and> (AxisX, item_x other) \<in> set (snd (snd r))"
    unfolding r_def
    using snap_others_reaches_line [OF clear self near _ other(1)] other(2) by simp
  have mv: "?s1 = s\<lparr>snapGuides := snd (snd r),
        items := map (\<lambda>item. if Some (item_id item) = selectedItemId s
                   then item\<lparr>item_x := fst r, item_y := fst (snd r)\<rparr> else item) (items s)\<rparr>"
    using drag on sn by (simp add: handleMouseMove_def Let_def truthy_def split: prod.splits)
  have up: "last (history (handleMouseUp ?s1)) = items ?s1"
    using drag(1) by (simp add: mv handleMouseUp_def recordHistory_history)
  have guide: "(AxisX, item_x other) \<in> set (snapGuides ?s1)"
    using hit by (simp add: mv)
  have its: "items ?s1 = map (\<lambda>item. if item_id item = sid
        then item\<lparr>item_x := item_x other, item_y := fst (snd r)\<rparr> else item) (items s)"
    using hit drag(2) by (simp add: mv)
  have xs: "list_all (\<lambda>i. item_id i \<noteq> sid \<or> item_x i = item_x other) (items ?s1)"
    unfolding its by (rule list_all_mapI) simp
  from cur have "find (\<lambda>i. item_id i = sid) (items s) = Some current"
    by (simp add: find_item_def)
  then have "current \<in> set (items s) \<and> item_id current = sid"
    by (auto simp: find_Some_iff)
  then have ex: "list_ex (\<lambda>i. item_id i = sid) (items ?s1)"
    unfolding its by (auto intro: list_ex_mapI)
  from guide xs ex up show ?thesis by simp
qed

text \<open>
  The theorem with two text items, the second at \<open>x = 300\<close>, the first dragged to the
  candidate \<open>x = 295\<close>: the guide is at 300 and both items are committed at \<open>x = 300\<close>.
\<close>

theorem drag_snaps_to_left_edge_witness:
  "isDragging two_items_dragging \<and> snappingEnabled two_items_dragging
   \<and> exact_sub 300 300 = 0
   \<and> \<bar>exact_sub (exact_sub 295 (fst (dragOffset two_items_dragging))) 300\<bar> < SNAP_THRESHOLD
   \<and> SNAP_THRESHOLD \<le> \<bar>exact_sub 295 (fst (dragOffset two_items_dragging))\<bar>
   \<and> snapGuides (handleMouseMove exact_sub 295 200 two_items_dragging) = [(AxisX, 300)]
   \<and> map (\<lambda>i. (item_id i, item_x i))
        (last (history (handleMouseUp (handleMouseMove exact_sub 295 200 two_items_dragging))))
       = [(''a'', 300), (''b'', 300)]"
proof -
  let ?s = "two_items_dragging"
  let ?b = "(text_item ''b'' 2)\<lparr>item_x := 300\<rparr>"
  have pre: "isDragging ?s" "selectedItemId ?s = Some ''a''" "''a'' \<noteq> []"
      "\<not> truthy (cropModeItem ?s)" "snappingEnabled ?s" "canvasRef ?s"
      "find_item (items ?s) (Some ''a'') = Some (text_item ''a'' 1)"
      "?b \<in> set (items ?s)" "item_id ?b \<noteq> ''a''"
      "exact_sub (item_x ?b) (item_x ?b) = 0"
      "\<bar>exact_sub (exact_sub 295 (fst (dragOffset ?s))) (item_x ?b)\<bar> < SNAP_THRESHOLD"
      "SNAP_THRESHOLD \<le> \<bar>exact_sub 295 (fst (dragOffset ?s))\<bar>"
      "list_all (clear_of exact_sub (Some ''a'') (exact_sub 295 (fst (dragOffset ?s)))
         (item_x ?b)) (items ?s)"
    by (simp_all add: two_items_dragging_eq initial_state_def truthy_def find_item_def
        text_item_def SNAP_THRESHOLD_def clear_of_def exact_sub_def)
  note inst = drag_snaps_to_left_edge [OF pre, where clientY = 200]
  have g: "snapGuides (handleMouseMove exact_sub 295 200 ?s) = [(AxisX, 300)]"
    by (simp add: two_items_dragging_eq ev_defs)
  have l: "last (history (handleMouseUp (handleMouseMove exact_sub 295 200 ?s)))
      = items (handleMouseMove exact_sub 295 200 ?s)"
    using inst by blast
  have i: "map (\<lambda>i. (item_id i, item_x i)) (items (handleMouseMove exact_sub 295 200 ?s))
      = [(''a'', 300), (''b'', 300)]"
    by (simp add: two_items_dragging_eq ev_defs)
  have h: "exact_sub 300 300 = 0"
      "\<bar>exact_sub (exact_sub 295 (fst (dragOffset ?s))) 300\<bar> < SNAP_THRESHOLD"
      "SNAP_THRESHOLD \<le> \<bar>exact_sub 295 (fst (dragOffset ?s))\<bar>"
    using pre by (simp_all add: text_item_def)
  from pre(1) pre(5) h g l i show ?thesis by simp
qed

text \<open>
  The claim as stated fails when the origin test comes first. The second item is at
  \<open>x = 12\<close> and the first is dragged, with offset 0, to the candidate \<open>x = 5\<close>, which is
  within the threshold of 12. The origin test sets the running x to 0, which is no longer
  within the threshold of 12, and the dragged item is committed at \<open>x = 0\<close>.
\<close>

theorem drag_near_origin_misses_left_edge:
  "map_option (\<lambda>s. (isDragging s, snappingEnabled s, dragOffset s,
        map (\<lambda>i. (item_id i, item_x i)) (items s)))
     (run (\<lambda>r. []) exact_sub initial_state
        [AddText ''a'', AddText ''b'', PropertyChange (SetX 12), MouseDown 100 100 ''a''])
     = Some (True, True, (0, 0), [(''a'', 100), (''b'', 12)])
   \<and> \<bar>exact_sub (exact_sub 5 0) 12\<bar> < SNAP_THRESHOLD
   \<and> map_option (\<lambda>s. map (\<lambda>i. (item_id i, item_x i)) (last (history s)))
     (run (\<lambda>r. []) exact_sub initial_state
        [AddText ''a'', AddText ''b'', PropertyChange (SetX 12), MouseDown 100 100 ''a'',
         MouseMove 5 300, MouseUp])
     = Some [(''a'', 0), (''b'', 12)]"
  by (simp add: ev_defs handlePropertyChange_def prop_input_shown_def selectedItem_def)

subsection \<open>One commit per drag gesture\<close>

lemma handleMouseMove_keeps:
  "history (handleMouseMove fsub cx cy s) = history s"
  "historyIndex (handleMouseMove fsub cx cy s) = historyIndex s"
  "isDragging (handleMouseMove fsub cx cy s) = isDragging s"
  by (simp_all add: handleMouseMove_def Let_def split: prod.splits)

lemma handleMouseMoves_keeps:
  "history (handleMouseMoves fsub ms s) = history s
   \<and> historyIndex (handleMouseMoves fsub ms s) = historyIndex s
   \<and> isDragging (handleMouseMoves fsub ms s) = isDragging s"
  by (induction ms arbitrary: s) (simp_all add: handleMouseMove_keeps)

text \<open>
  Claim C9, amended. A gesture that starts with pointer-down on an item outside crop mode,
  goes on with any number of pointer-moves (also none) and ends with pointer-up appends
  exactly one snapshot, the live items at pointer-up, after the entries up to the cursor,
  and a second pointer-up appends nothing. Without a move that snapshot is the unchanged
  scene, so it equals its predecessor whenever the scene was the entry at the cursor. The
  entries after the cursor are dropped first: the new length is the old cursor plus 2, which
  is one more than the old length exactly when the cursor was on the last entry.
\<close>

theorem drag_gesture_commits_once:
  assumes nocrop: "\<not> truthy (cropModeItem s)"
    and item: "find (\<lambda>i. item_id i = ident) (items s) = Some item"
    and rng: "historyIndex s < length (history s)"
  shows "history (handleMouseUp (handleMouseMoves fsub ms (handleMouseDown fsub cx cy ident s)))
        = take (historyIndex s + 1) (history s)
            @ [items (handleMouseMoves fsub ms (handleMouseDown fsub cx cy ident s))]
     \<and> historyIndex (handleMouseUp (handleMouseMoves fsub ms (handleMouseDown fsub cx cy ident s)))
        = historyIndex s + 1
     \<and> length (history (handleMouseUp (handleMouseMoves fsub ms (handleMouseDown fsub cx cy ident s))))
        = historyIndex s + 2
     \<and> handleMouseUp (handleMouseUp (handleMouseMoves fsub ms (handleMouseDown fsub cx cy ident s)))
        = handleMouseUp (handleMouseMoves fsub ms (handleMouseDown fsub cx cy ident s))
     \<and> history (handleMouseUp (handleMouseDown fsub cx cy ident s))
        = take (historyIndex s + 1) (history s) @ [items s]
     \<and> (items s \<noteq> history s ! historyIndex s
        \<or> history (handleMouseUp (handleMouseDown fsub cx cy ident s)) ! (historyIndex s + 1)
          = history (handleMouseUp (handleMouseDown fsub cx cy ident s)) ! historyIndex s)
     \<and> ((length (history (handleMouseUp (handleMouseMoves fsub ms (handleMouseDown fsub cx cy ident s))))
          = length (history s) + 1) = (historyIndex s + 1 = length (history s)))"
proof -
  let ?d = "handleMouseDown fsub cx cy ident s"
  let ?m = "handleMouseMoves fsub ms ?d"
  have d: "history ?d = history s" "historyIndex ?d = historyIndex s" "isDragging ?d"
      "items ?d = items s"
    using nocrop item by (simp_all add: handleMouseDown_def)
  have m: "history ?m = history s" "historyIndex ?m = historyIndex s" "isDragging ?m"
    using d by (simp_all add: handleMouseMoves_keeps)
  have up: "handleMouseUp ?m = recordHistory (items ?m) (?m\<lparr>isDragging := False, snapGuides := []\<rparr>)"
    using m(3) by (simp add: handleMouseUp_def)
  have h: "history (handleMouseUp ?m) = take (historyIndex s + 1) (history s) @ [items ?m]"
    by (simp add: up recordHistory_history m)
  have i: "historyIndex (handleMouseUp ?m) = historyIndex s + 1"
    using rng by (simp add: up recordHistory_index m)
  have l: "length (history (handleMouseUp ?m)) = historyIndex s + 2"
    using rng by (simp add: h)
  have again: "handleMouseUp (handleMouseUp ?m) = handleMouseUp ?m"
    by (simp add: up handleMouseUp_def [of "recordHistory _ _"] recordHistory_others)
  have nomove: "history (handleMouseUp ?d) = take (historyIndex s + 1) (history s) @ [items s]"
    using d by (simp add: handleMouseUp_def recordHistory_history)
  have same: "items s \<noteq> history s ! historyIndex s
      \<or> history (handleMouseUp ?d) ! (historyIndex s + 1) = history (handleMouseUp ?d) ! historyIndex s"
    using rng by (simp add: nomove nth_append)
  have grow: "(length (history (handleMouseUp ?m)) = length (history s) + 1)
      = (historyIndex s + 1 = length (history s))"
    using rng by (simp add: l)
  from h i l again nomove same grow show ?thesis by simp
qed

text \<open>
  The theorem for one text item: dragged over two moves to \<open>x = 250\<close>, and pressed and
  released without a move, where the new last entry repeats the one before it.
\<close>

theorem drag_gesture_commits_once_witness:
  "\<not> truthy (cropModeItem (addText ''a'' initial_state))
   \<and> find (\<lambda>i. item_id i = ''a'') (items (addText ''a'' initial_state)) = Some (text_item ''a'' 1)
   \<and> historyIndex (addText ''a'' initial_state) < length (history (addText ''a'' initial_state))
   \<and> map (map (\<lambda>i. (item_id i, item_x i)))
     (history (handleMouseUp (handleMouseMoves exact_sub [(150, 100), (250, 100)]
        (handleMouseDown exact_sub 100 100 ''a'' (addText ''a'' initial_state)))))
     = [[], [(''a'', 100)], [(''a'', 250)]]
   \<and> map (map (\<lambda>i. (item_id i, item_x i)))
     (history (handleMouseUp (handleMouseDown exact_sub 100 100 ''a'' (addText ''a'' initial_state))))
     = [[], [(''a'', 100)], [(''a'', 100)]]"
proof -
  let ?s = "addText ''a'' initial_state"
  have pre: "\<not> truthy (cropModeItem ?s)"
      "find (\<lambda>i. item_id i = ''a'') (items ?s) = Some (text_item ''a'' 1)"
      "historyIndex ?s < length (history ?s)"
    by (simp_all add: ev_defs)
  note inst = drag_gesture_commits_once
    [OF pre, where fsub = exact_sub and ms = "[(150, 100), (250, 100)]" and cx = 100 and cy = 100]
  have h: "history ?s = [[], [text_item ''a'' 1]]" "historyIndex ?s = 1"
      "items ?s = [text_item ''a'' 1]"
    by (simp_all add: ev_defs)
  have m: "items (handleMouseMoves exact_sub [(150, 100), (250, 100)] (handleMouseDown exact_sub 100 100 ''a'' ?s))
      = [(text_item ''a'' 1)\<lparr>item_x := 250\<rparr>]"
    by (simp add: ev_defs)
  from inst have a: "history (handleMouseUp (handleMouseMoves exact_sub [(150, 100), (250, 100)]
        (handleMouseDown exact_sub 100 100 ''a'' ?s)))
      = take (historyIndex ?s + 1) (history ?s)
          @ [items (handleMouseMoves exact_sub [(150, 100), (250, 100)] (handleMouseDown exact_sub 100 100 ''a'' ?s))]"
    by blast
  from inst have b: "history (handleMouseUp (handleMouseDown exact_sub 100 100 ''a'' ?s))
      = take (historyIndex ?s + 1) (history ?s) @ [items ?s]"
    by blast
  have "map (map (\<lambda>i. (item_id i, item_x i)))
       (history (handleMouseUp (handleMouseMoves exact_sub [(150, 100), (250, 100)]
          (handleMouseDown exact_sub 100 100 ''a'' ?s))))
       = [[], [(''a'', 100)], [(''a'', 250)]]
     \<and> map (map (\<lambda>i. (item_id i, item_x i)))
       (history (handleMouseUp (handleMouseDown exact_sub 100 100 ''a'' ?s)))
       = [[], [(''a'', 100)], [(''a'', 100)]]"
    unfolding a b m h by (simp add: text_item_def)
  with pre show ?thesis by simp
qed

text \<open>
  The claim as stated fails after an undo. Two items are added and one addition undone:
  the history has 3 entries and the cursor is 1. A press and release on the remaining
  item commits once and the history still has 3 entries.
\<close>

theorem drag_gesture_after_undo_keeps_length:
  "map_option (\<lambda>s. (length (history s), historyIndex s))
     (run (\<lambda>r. []) exact_sub initial_state [AddText ''a'', AddText ''b'', Undo]) = Some (3, 1)
   \<and> map_option (\<lambda>s. (length (history s), historyIndex s))
     (run (\<lambda>r. []) exact_sub initial_state
        [AddText ''a'', AddText ''b'', Undo, MouseDown 100 100 ''a'', MouseUp]) = Some (3, 2)"
  by (simp add: ev_defs)

end
